theory Spec2Isabelle
  imports
    Main
    "HOL-Library.Word"
    "HOL-Library.Multiset"
    "HOL-Library.Char_ord"
    "HOL-Library.List_Lexorder"
    "HOL-Library.Product_Lexorder"
begin

unbundle bit_operations_syntax

section \<open>C strings and return codes\<close>

text \<open>
  A C string is modelled by the list of its bytes before the terminating NUL, so the
  terminator itself is implicit: reading the byte a pointer designates gives NUL when
  the list is empty, and advancing a pointer past a byte drops the head of the list.
\<close>

type_synonym errno_t = int

abbreviation EOK :: errno_t where "EOK \<equiv> 0"
abbreviation ENOENT :: errno_t where "ENOENT \<equiv> 2"
abbreviation EIO :: errno_t where "EIO \<equiv> 5"
abbreviation ENOMEM :: errno_t where "ENOMEM \<equiv> 12"
abbreviation EACCES :: errno_t where "EACCES \<equiv> 13"
abbreviation EINVAL :: errno_t where "EINVAL \<equiv> 22"

abbreviation NUL :: char where "NUL \<equiv> CHR 0x00"
abbreviation NL :: char where "NL \<equiv> CHR 0x0A"

text \<open>\<open>s[0]\<close> for a C string \<open>s\<close>.\<close>

fun deref :: "string \<Rightarrow> char" where
  "deref [] = NUL"
| "deref (c # cs) = c"

text \<open>
  \<open>strchr(s, c)\<close>: the suffix of \<open>s\<close> that starts at the first occurrence of \<open>c\<close>,
  \<open>None\<close> for the null pointer. The terminator counts as part of the string.
\<close>

fun strchr :: "string \<Rightarrow> char \<Rightarrow> string option" where
  "strchr [] c = (if c = NUL then Some [] else None)"
| "strchr (x # xs) c = (if x = c then Some (x # xs) else strchr xs c)"

text \<open>
  \<open>strcmp(a, b)\<close>: bytes are compared as unsigned char. The C standard fixes only the
  sign of the result, which is all the callers read.
\<close>

fun strcmp :: "string \<Rightarrow> string \<Rightarrow> int" where
  "strcmp [] [] = 0"
| "strcmp [] (y # ys) = - 1"
| "strcmp (x # xs) [] = 1"
| "strcmp (x # xs) (y # ys) =
     (if x = y then strcmp xs ys
      else if (of_char x :: nat) < of_char y then - 1 else 1)"

text \<open>
  \<open>strncmp(a, b, n)\<close>: as \<open>strcmp\<close>, over at most \<open>n\<close> bytes. The first argument may be
  a buffer of at least \<open>n\<close> bytes that carries no terminator.
\<close>

fun strncmp :: "string \<Rightarrow> string \<Rightarrow> nat \<Rightarrow> int" where
  "strncmp a b 0 = 0"
| "strncmp [] [] (Suc n) = 0"
| "strncmp [] (y # ys) (Suc n) = - 1"
| "strncmp (x # xs) [] (Suc n) = 1"
| "strncmp (x # xs) (y # ys) (Suc n) =
     (if x = y then strncmp xs ys n
      else if (of_char x :: nat) < of_char y then - 1 else 1)"

section \<open>authselect\_check.c: content of a generated file\<close>

text \<open>
  \<open>check_content\<close>: the "generated by" preamble is two comment lines and one empty line;
  what follows is compared with the expected text.
\<close>

definition check_content :: "string \<Rightarrow> string \<Rightarrow> bool" where
  "check_content content expected =
     (if deref content \<noteq> CHR ''#'' then False
      else case strchr content NL of
        None \<Rightarrow> False
      | Some p1 \<Rightarrow>
          let nextline = tl p1 in
          if deref nextline \<noteq> CHR ''#'' then False
          else case strchr nextline NL of
            None \<Rightarrow> False
          | Some p2 \<Rightarrow>
              let nextline = tl p2 in
              if deref nextline \<noteq> NL then False
              else let nextline = tl nextline in
                strcmp nextline expected = 0)"

section \<open>The host as seen by the verifier\<close>

type_synonym mode_t = "32 word"
type_synonym uid_t = "32 word"
type_synonym gid_t = "32 word"

text \<open>The fields of \<open>struct stat\<close> that the checks read.\<close>

record stat =
  st_mode :: mode_t
  st_uid :: uid_t
  st_gid :: gid_t

text \<open>One entry of the \<open>GENERATED_FILES\<close> table; \<open>content\<close> may be the null pointer.\<close>

record authselect_generated =
  path :: string
  content :: "string option"

text \<open>One entry of the \<open>SYMLINK_FILES\<close> table.\<close>

record authselect_symlink =
  name :: string
  dest :: string

text \<open>
  Everything the verifier obtains from outside itself, per call:
  \<^item> \<open>read_textfile\<close>: the return value of \<open>read_textfile\<close> for a path and, when that is
    \<open>EOK\<close>, the text it hands back;
  \<^item> \<open>lstat\<close>, \<open>readlink\<close>, \<open>access\<close>: the system calls, \<open>Inl e\<close> when the call
    returns -1 with \<open>errno = e\<close>; \<open>readlink\<close> gives the target stored in the link,
    \<open>access\<close> is the call with \<open>F_OK\<close>;
  \<^item> \<open>authselect_read_conf\<close> and \<open>authselect_cat\<close>: the loader's reading of the recorded
    profile and its compilation of a profile, the latter given by the table that
    \<open>GENERATED_FILES(files)\<close> expands to;
  \<^item> the tables \<open>GENERATED_FILES_PATHS\<close> and \<open>SYMLINK_FILES\<close> and the owner
    \<open>AUTHSELECT_UID\<close>, \<open>AUTHSELECT_GID\<close> of the headers;
  \<^item> \<open>indeterminate\<close>: the content of a local \<open>bool\<close> declared without initialiser.
  The \<open>ERROR\<close>, \<open>WARN\<close> and \<open>INFO\<close> messages do not influence any result and are left out.
\<close>

record world =
  read_textfile :: "string \<Rightarrow> errno_t \<times> string"
  lstat :: "string \<Rightarrow> errno_t + stat"
  readlink :: "string \<Rightarrow> errno_t + string"
  access :: "string \<Rightarrow> errno_t + unit"
  authselect_read_conf :: "errno_t \<times> string \<times> string list"
  authselect_cat :: "string \<Rightarrow> string list \<Rightarrow> errno_t \<times> authselect_generated list"
  GENERATED_FILES_PATHS :: "authselect_generated list"
  SYMLINK_FILES :: "authselect_symlink list"
  AUTHSELECT_UID :: uid_t
  AUTHSELECT_GID :: gid_t
  indeterminate :: bool

section \<open>authselect\_util.c: file checks\<close>

abbreviation S_IFMT :: mode_t where "S_IFMT \<equiv> 0xF000"
abbreviation S_IFREG :: mode_t where "S_IFREG \<equiv> 0x8000"
abbreviation S_IFLNK :: mode_t where "S_IFLNK \<equiv> 0xA000"
abbreviation ALLPERMS :: mode_t where "ALLPERMS \<equiv> 0xFFF"
abbreviation ACCESSPERMS :: mode_t where "ACCESSPERMS \<equiv> 0x1FF"
abbreviation S_IRUSR :: mode_t where "S_IRUSR \<equiv> 0x100"
abbreviation S_IWUSR :: mode_t where "S_IWUSR \<equiv> 0x80"
abbreviation S_IRGRP :: mode_t where "S_IRGRP \<equiv> 0x20"
abbreviation S_IROTH :: mode_t where "S_IROTH \<equiv> 0x4"
abbreviation PATH_MAX :: nat where "PATH_MAX \<equiv> 4096"

definition S_ISLNK :: "mode_t \<Rightarrow> bool" where
  "S_ISLNK m = (m AND S_IFMT = S_IFLNK)"

definition check_type :: "stat option \<Rightarrow> mode_t \<Rightarrow> bool" where
  "check_type statbuf mode =
     (let exp_type = mode AND S_IFMT in
      case statbuf of
        None \<Rightarrow> False
      | Some sb \<Rightarrow> if exp_type \<noteq> st_mode sb AND S_IFMT then False else True)"

definition check_mode :: "stat option \<Rightarrow> uid_t \<Rightarrow> gid_t \<Rightarrow> mode_t \<Rightarrow> bool" where
  "check_mode statbuf uid gid mode =
     (let exp_perm = mode AND ALLPERMS in
      case statbuf of
        None \<Rightarrow> False
      | Some sb \<Rightarrow>
          if \<not> check_type statbuf mode then False
          else if exp_perm \<noteq> st_mode sb AND ALLPERMS then False
          else if uid \<noteq> - 1 \<and> st_uid sb \<noteq> uid then False
          else if gid \<noteq> - 1 \<and> st_gid sb \<noteq> gid then False
          else True)"

text \<open>
  A function with a \<open>bool *\<close> out-parameter takes the content of the pointed-to variable
  and returns it next to the return value, changed where the function assigns it.
\<close>

definition check_internal ::
  "world \<Rightarrow> string \<Rightarrow> uid_t \<Rightarrow> gid_t \<Rightarrow> mode_t \<Rightarrow> bool \<Rightarrow> errno_t \<times> bool" where
  "check_internal w filepath uid gid mode result =
     (case lstat w filepath of
        Inl ret \<Rightarrow> if ret = ENOENT then (EOK, False) else (ret, result)
      | Inr statbuf \<Rightarrow> (EOK, check_mode (Some statbuf) uid gid mode))"

definition check_file ::
  "world \<Rightarrow> string \<Rightarrow> uid_t \<Rightarrow> gid_t \<Rightarrow> mode_t \<Rightarrow> bool \<Rightarrow> errno_t \<times> bool" where
  "check_file w filepath uid gid permissions result =
     check_internal w filepath uid gid (S_IFREG OR permissions) result"

text \<open>
  \<open>readlink(linkpath, linkbuf, bufsiz)\<close>: at most \<open>bufsiz\<close> bytes of the target, without
  terminator; the length of the list is the value the call returns.
\<close>

definition readlink_buf :: "world \<Rightarrow> string \<Rightarrow> nat \<Rightarrow> errno_t + string" where
  "readlink_buf w linkpath bufsiz =
     (case readlink w linkpath of Inl e \<Rightarrow> Inl e | Inr t \<Rightarrow> Inr (take bufsiz t))"

definition check_link :: "world \<Rightarrow> string \<Rightarrow> string \<Rightarrow> bool \<Rightarrow> errno_t \<times> bool" where
  "check_link w linkpath destpath result =
     (let (ret, result) =
            check_internal w linkpath (- 1) (- 1) (S_IFLNK OR ACCESSPERMS) result in
      if ret \<noteq> EOK \<or> result = False then (ret, result)
      else case readlink_buf w linkpath (PATH_MAX + 1) of
        Inl ret \<Rightarrow> (ret, result)
      | Inr linkbuf \<Rightarrow>
          let len = length linkbuf in
          if strncmp linkbuf destpath len \<noteq> 0 then (EOK, False)
          else (EOK, True))"

definition check_notalink :: "world \<Rightarrow> string \<Rightarrow> string \<Rightarrow> bool \<Rightarrow> errno_t \<times> bool" where
  "check_notalink w linkpath destpath result =
     (case lstat w linkpath of
        Inl ret \<Rightarrow> if ret = ENOENT then (EOK, True) else (ret, result)
      | Inr statbuf \<Rightarrow>
          if \<not> S_ISLNK (st_mode statbuf) then (EOK, True)
          else case readlink_buf w linkpath (PATH_MAX + 1) of
            Inl ret \<Rightarrow> (ret, result)
          | Inr linkbuf \<Rightarrow>
              let len = length linkbuf in
              if strncmp linkbuf destpath len = 0 then (EOK, False)
              else (EOK, True))"

definition check_access :: "world \<Rightarrow> string \<Rightarrow> errno_t" where
  "check_access w p = (case access w p of Inr _ \<Rightarrow> EOK | Inl e \<Rightarrow> e)"

definition check_exists :: "world \<Rightarrow> string \<Rightarrow> errno_t" where
  "check_exists w p = check_access w p"

section \<open>authselect\_check.c: the verifier\<close>

definition check_generated_file ::
  "world \<Rightarrow> string \<Rightarrow> string option \<Rightarrow> bool \<Rightarrow> errno_t \<times> bool" where
  "check_generated_file w p expected_content is_valid =
     (let (ret, text) = read_textfile w p in
      if ret = ENOENT then (EOK, False)
      else if ret = EACCES then (EOK, False)
      else if ret \<noteq> EOK then (ret, is_valid)
      else
        let expected = (case expected_content of None \<Rightarrow> [] | Some e \<Rightarrow> e);
            cmp = check_content text expected
        in if \<not> cmp then (EOK, False)
           else
             let (ret, bret) =
                   check_file w p (AUTHSELECT_UID w) (AUTHSELECT_GID w)
                     (S_IRUSR OR S_IWUSR OR S_IRGRP OR S_IROTH) (indeterminate w)
             in if ret \<noteq> EOK then (ret, is_valid) else (EOK, bret))"

text \<open>
  The loops return the return code and \<open>is_valid_result\<close>; the last argument is the
  local variable that the callee writes through its out-parameter.
\<close>

fun check_generated_files_loop ::
  "world \<Rightarrow> authselect_generated list \<Rightarrow> bool \<Rightarrow> bool \<Rightarrow> errno_t \<times> bool" where
  "check_generated_files_loop w [] is_valid_result is_valid = (EOK, is_valid_result)"
| "check_generated_files_loop w (g # gs) is_valid_result is_valid =
     (let (ret, is_valid) = check_generated_file w (path g) (content g) is_valid in
      if ret \<noteq> EOK then (ret, is_valid_result)
      else check_generated_files_loop w gs (is_valid_result \<and> is_valid) is_valid)"

definition check_generated_files ::
  "world \<Rightarrow> authselect_generated list \<Rightarrow> bool \<Rightarrow> errno_t \<times> bool" where
  "check_generated_files w generated is_valid_out =
     (let (ret, is_valid_result) = check_generated_files_loop w generated True False in
      if ret \<noteq> EOK then (ret, is_valid_out) else (EOK, is_valid_result))"

fun check_symlinks_loop ::
  "world \<Rightarrow> authselect_symlink list \<Rightarrow> bool \<Rightarrow> bool \<Rightarrow> errno_t \<times> bool" where
  "check_symlinks_loop w [] is_valid_result is_valid = (EOK, is_valid_result)"
| "check_symlinks_loop w (l # ls) is_valid_result is_valid =
     (let (ret, is_valid) = check_link w (name l) (dest l) is_valid in
      if ret \<noteq> EOK then (ret, is_valid_result)
      else check_symlinks_loop w ls
             (if \<not> is_valid then is_valid_result \<and> is_valid else is_valid_result) is_valid)"

definition check_symlinks :: "world \<Rightarrow> bool \<Rightarrow> errno_t \<times> bool" where
  "check_symlinks w is_valid_out =
     (let (ret, is_valid_result) =
            check_symlinks_loop w (SYMLINK_FILES w) True (indeterminate w) in
      if ret \<noteq> EOK then (ret, is_valid_out) else (EOK, is_valid_result))"

fun check_missing_generated_loop ::
  "world \<Rightarrow> authselect_generated list \<Rightarrow> bool \<Rightarrow> errno_t \<times> bool" where
  "check_missing_generated_loop w [] is_valid_result = (EOK, is_valid_result)"
| "check_missing_generated_loop w (g # gs) is_valid_result =
     (let ret = check_exists w (path g) in
      if ret = EOK then check_missing_generated_loop w gs False
      else if ret \<noteq> ENOENT then (ret, is_valid_result)
      else check_missing_generated_loop w gs is_valid_result)"

fun check_missing_symlinks_loop ::
  "world \<Rightarrow> authselect_symlink list \<Rightarrow> bool \<Rightarrow> bool \<Rightarrow> errno_t \<times> bool" where
  "check_missing_symlinks_loop w [] is_valid_result is_valid_symlink =
     (EOK, is_valid_result)"
| "check_missing_symlinks_loop w (l # ls) is_valid_result is_valid_symlink =
     (let ret = check_exists w (name l) in
      if ret = EOK then
        (let (ret, is_valid_symlink) =
               check_notalink w (name l) (dest l) is_valid_symlink in
         if ret \<noteq> EOK then (ret, is_valid_result)
         else check_missing_symlinks_loop w ls
                (if \<not> is_valid_symlink then False else is_valid_result) is_valid_symlink)
      else if ret \<noteq> ENOENT then (ret, is_valid_result)
      else check_missing_symlinks_loop w ls is_valid_result is_valid_symlink)"

definition check_missing_conf :: "world \<Rightarrow> bool \<Rightarrow> errno_t \<times> bool" where
  "check_missing_conf w is_valid_out =
     (let (ret, is_valid_result) =
            check_missing_generated_loop w (GENERATED_FILES_PATHS w) True in
      if ret \<noteq> EOK then (ret, is_valid_out)
      else
        let (ret, is_valid_result) =
              check_missing_symlinks_loop w (SYMLINK_FILES w) is_valid_result
                (indeterminate w)
        in if ret \<noteq> EOK then (ret, is_valid_out) else (EOK, is_valid_result))"

definition check_existing_conf ::
  "world \<Rightarrow> string \<Rightarrow> string list \<Rightarrow> bool \<Rightarrow> errno_t \<times> bool" where
  "check_existing_conf w profile_id features is_valid_out =
     (let (ret, files) = authselect_cat w profile_id features in
      if ret \<noteq> EOK then (ret, is_valid_out)
      else
        let is_valid_result = True;
            (ret, is_valid) = check_generated_files w files (indeterminate w)
        in if ret \<noteq> EOK then (ret, is_valid_out)
           else
             let is_valid_result = (is_valid_result \<and> is_valid);
                 (ret, is_valid) = check_symlinks w is_valid
             in if ret \<noteq> EOK then (ret, is_valid_out)
                else
                  let is_valid_result = (is_valid_result \<and> is_valid)
                  in (EOK, is_valid_result))"

definition authselect_check_conf :: "world \<Rightarrow> bool \<Rightarrow> errno_t \<times> bool" where
  "authselect_check_conf w is_valid_out =
     (let (ret, profile_id, features) = authselect_read_conf w in
      if ret = ENOENT then
        (let (ret, is_valid_out) = check_missing_conf w is_valid_out in
         if ret \<noteq> EOK then (ret, is_valid_out) else (ENOENT, is_valid_out))
      else if ret \<noteq> EOK then (ret, is_valid_out)
      else check_existing_conf w profile_id features is_valid_out)"

fun check_symlinks_presence_loop ::
  "world \<Rightarrow> authselect_symlink list \<Rightarrow> bool \<Rightarrow> errno_t \<times> bool" where
  "check_symlinks_presence_loop w [] exist = (EOK, exist)"
| "check_symlinks_presence_loop w (l # ls) exist =
     (let ret = check_exists w (name l) in
      if ret = EOK then check_symlinks_presence_loop w ls True
      else if ret \<noteq> ENOENT then (ret, exist)
      else check_symlinks_presence_loop w ls exist)"

definition authselect_check_symlinks_presence :: "world \<Rightarrow> bool \<Rightarrow> errno_t \<times> bool" where
  "authselect_check_symlinks_presence w exist_out =
     (let (ret, exist) = check_symlinks_presence_loop w (SYMLINK_FILES w) False in
      if ret \<noteq> EOK then (ret, exist_out) else (EOK, exist))"

section \<open>authselect\_dir.c: the profile catalog\<close>

text \<open>
  Of \<open>struct authselect_dir\<close> the merger reads \<open>profiles\<close> and \<open>num_profiles\<close>;
  \<open>authselect_dir_add_profile\<close> keeps \<open>num_profiles\<close> equal to the number of entries
  of \<open>profiles\<close>, so the loops \<open>for (i = 0; i < dir->num_profiles; i++)\<close> run over the
  list from its first entry to its last.
\<close>

record authselect_dir =
  profiles :: "string list"

text \<open>
  Memory: \<open>None\<close> when no allocation fails, \<open>Some n\<close> when the next \<open>n\<close> allocations
  succeed and the one after them fails. \<open>alloc\<close> is one call of \<open>calloc\<close> or \<open>strdup\<close>.
\<close>

type_synonym heap = "nat option"

fun alloc :: "heap \<Rightarrow> bool \<times> heap" where
  "alloc None = (True, None)"
| "alloc (Some 0) = (False, Some 0)"
| "alloc (Some (Suc n)) = (True, Some n)"

text \<open>
  Modelled from the spec: \<open>authselect_profile_custom_id\<close> is declared in a header that
  is not part of the sources at hand. The custom-namespaced form of an identifier is the
  identifier behind the prefix \<open>custom/\<close> (the example \<open>custom/mine\<close>; the comment of
  \<open>merge_custom\<close> says the same); the null pointer is returned when memory runs out.
\<close>

definition authselect_profile_custom_id :: "string \<Rightarrow> heap \<Rightarrow> string option \<times> heap" where
  "authselect_profile_custom_id nm h =
     (let (ok, h) = alloc h in
      if ok then (Some (''custom/'' @ nm), h) else (None, h))"

text \<open>
  Modelled from the spec: \<open>authselect_is_custom_profile\<close> is declared in a header that
  is not part of the sources at hand. An identifier is custom-namespaced when it carries
  the prefix \<open>custom/\<close>.
\<close>

definition authselect_is_custom_profile :: "string \<Rightarrow> bool" where
  "authselect_is_custom_profile nm = (take 7 nm = ''custom/'')"

text \<open>\<open>sort_profile_ids\<close>: the comparator, on array entries; \<open>None\<close> is the null pointer.\<close>

fun sort_profile_ids :: "string option \<Rightarrow> string option \<Rightarrow> int" where
  "sort_profile_ids None b = 1"
| "sort_profile_ids (Some str_a) None = - 1"
| "sort_profile_ids (Some str_a) (Some str_b) =
     (let is_custom_a = authselect_is_custom_profile str_a;
          is_custom_b = authselect_is_custom_profile str_b
      in if is_custom_a \<and> \<not> is_custom_b then 1
         else if \<not> is_custom_a \<and> is_custom_b then - 1
         else strcmp str_a str_b)"

text \<open>
  \<open>qsort\<close>: the C library leaves the algorithm open. The model sorts by insertion;
  \<open>qsort_sort_key\<close> and \<open>sorted_arrangement_unique\<close> below show that the entries have
  one arrangement only that the comparator accepts as sorted, so any other algorithm
  returns the same array.
\<close>

fun qsort_insert :: "('a \<Rightarrow> 'a \<Rightarrow> int) \<Rightarrow> 'a \<Rightarrow> 'a list \<Rightarrow> 'a list" where
  "qsort_insert compar x [] = [x]"
| "qsort_insert compar x (y # ys) =
     (if compar x y \<le> 0 then x # y # ys else y # qsort_insert compar x ys)"

definition qsort :: "('a \<Rightarrow> 'a \<Rightarrow> int) \<Rightarrow> 'a list \<Rightarrow> 'a list" where
  "qsort compar base = foldr (qsort_insert compar) base []"

text \<open>
  The array \<open>ids\<close> is zeroed by \<open>calloc\<close> and filled from the left: the model carries
  the entries \<open>ids[0..index)\<close> as a list, so \<open>index\<close> is its length and every later
  slot holds the null pointer. Each function returns the return code, the entries and
  the memory.
\<close>

fun merge_default_loop ::
  "string list \<Rightarrow> string list \<Rightarrow> heap \<Rightarrow> errno_t \<times> string list \<times> heap" where
  "merge_default_loop ids [] h = (EOK, ids, h)"
| "merge_default_loop ids (p # ps) h =
     (let (ok, h) = alloc h in
      if \<not> ok then (ENOMEM, ids, h)
      else merge_default_loop (ids @ [p]) ps h)"

definition merge_default ::
  "string list \<Rightarrow> authselect_dir \<Rightarrow> heap \<Rightarrow> errno_t \<times> string list \<times> heap" where
  "merge_default ids dir h = merge_default_loop ids (profiles dir) h"

text \<open>The inner loop of \<open>merge_vendor\<close>: the value of \<open>j\<close> when it ends.\<close>

fun merge_vendor_scan :: "string \<Rightarrow> string list \<Rightarrow> nat \<Rightarrow> nat" where
  "merge_vendor_scan p [] j = j"
| "merge_vendor_scan p (x # xs) j =
     (if strcmp p x = 0 then j else merge_vendor_scan p xs (Suc j))"

fun merge_vendor_loop ::
  "nat \<Rightarrow> string list \<Rightarrow> string list \<Rightarrow> heap \<Rightarrow> errno_t \<times> string list \<times> heap" where
  "merge_vendor_loop input_index ids [] h = (EOK, ids, h)"
| "merge_vendor_loop input_index ids (p # ps) h =
     (let j = merge_vendor_scan p (take input_index ids) 0 in
      if j \<noteq> input_index then merge_vendor_loop input_index ids ps h
      else
        let (ok, h) = alloc h in
        if \<not> ok then (ENOMEM, ids, h)
        else merge_vendor_loop input_index (ids @ [p]) ps h)"

definition merge_vendor ::
  "string list \<Rightarrow> authselect_dir \<Rightarrow> heap \<Rightarrow> errno_t \<times> string list \<times> heap" where
  "merge_vendor ids dir h =
     (let input_index = length ids in
      merge_vendor_loop input_index ids (profiles dir) h)"

fun merge_custom_loop ::
  "string list \<Rightarrow> string list \<Rightarrow> heap \<Rightarrow> errno_t \<times> string list \<times> heap" where
  "merge_custom_loop ids [] h = (EOK, ids, h)"
| "merge_custom_loop ids (p # ps) h =
     (case authselect_profile_custom_id p h of
        (None, h) \<Rightarrow> (ENOMEM, ids, h)
      | (Some cid, h) \<Rightarrow> merge_custom_loop (ids @ [cid]) ps h)"

definition merge_custom ::
  "string list \<Rightarrow> authselect_dir \<Rightarrow> heap \<Rightarrow> errno_t \<times> string list \<times> heap" where
  "merge_custom ids dir h = merge_custom_loop ids (profiles dir) h"

text \<open>
  What a caller reads from a null-terminated array of strings: the entries before the
  first null pointer.
\<close>

definition string_array :: "string option list \<Rightarrow> string list" where
  "string_array a = map the (takeWhile (\<lambda>e. e \<noteq> None) a)"

text \<open>
  \<open>authselect_merge_profiles\<close>: \<open>None\<close> is the null pointer returned on failure. The
  call of \<open>qsort\<close> covers \<open>index + 1\<close> slots, that is the entries and the null pointer
  behind them.
\<close>

definition authselect_merge_profiles ::
  "authselect_dir \<Rightarrow> authselect_dir \<Rightarrow> authselect_dir \<Rightarrow> heap \<Rightarrow> string list option" where
  "authselect_merge_profiles profile vendor custom h =
     (let (ok, h) = alloc h in
      if \<not> ok then None
      else
        let (ret, ids, h) = merge_default [] profile h in
        if ret \<noteq> EOK then None
        else
          let (ret, ids, h) = merge_vendor ids vendor h in
          if ret \<noteq> EOK then None
          else
            let (ret, ids, h) = merge_custom ids custom h in
            if ret \<noteq> EOK then None
            else Some (string_array (qsort sort_profile_ids (map Some ids @ [None]))))"

section \<open>What the specification says, and example hosts\<close>

text \<open>
  The form the specification gives to a generated file: a line that begins with the
  comment marker, a second such line, one empty line, and then the body.
\<close>

definition generated_form :: "string \<Rightarrow> string \<Rightarrow> bool" where
  "generated_form text body \<longleftrightarrow>
     (\<exists>l1 l2. NL \<notin> set l1 \<and> NL \<notin> set l2 \<and>
        text = (CHR ''#'' # l1 @ [NL]) @ (CHR ''#'' # l2 @ [NL]) @ [NL] @ body)"

text \<open>A host on which nothing exists and no profile is recorded.\<close>

definition bare_host :: world where
  "bare_host =
     \<lparr> read_textfile = (\<lambda>_. (ENOENT, [])),
       lstat = (\<lambda>_. Inl ENOENT),
       readlink = (\<lambda>_. Inl ENOENT),
       access = (\<lambda>_. Inl ENOENT),
       authselect_read_conf = (ENOENT, [], []),
       authselect_cat = (\<lambda>_ _. (ENOENT, [])),
       GENERATED_FILES_PATHS = [],
       SYMLINK_FILES = [],
       AUTHSELECT_UID = 0,
       AUTHSELECT_GID = 0,
       indeterminate = False \<rparr>"

definition example_body :: string where
  "example_body = ''expected-body'' @ [NL]"

definition example_text :: string where
  "example_text =
     ''# generated 2024-01-01'' @ [NL] @ ''# do not edit'' @ [NL] @ [NL] @ example_body"

text \<open>The same file without the empty line behind the two comment lines.\<close>

definition example_text_no_blank :: string where
  "example_text_no_blank =
     ''# generated 2024-01-01'' @ [NL] @ ''# do not edit'' @ [NL] @ example_body"

definition host_no_blank :: world where
  "host_no_blank =
     bare_host\<lparr> read_textfile := (\<lambda>_. (EOK, example_text_no_blank)) \<rparr>"

text \<open>The file is there as generated: a regular file of mode 0644 that belongs to root.\<close>

definition host_generated :: world where
  "host_generated =
     bare_host\<lparr>
       read_textfile := (\<lambda>_. (EOK, example_text)),
       lstat := (\<lambda>_. Inr \<lparr> st_mode = 0x81A4, st_uid = 0, st_gid = 0 \<rparr>) \<rparr>"

text \<open>The least text of the form with an empty body.\<close>

definition example_text_empty_body :: string where
  "example_text_empty_body = [CHR ''#'', NL, CHR ''#'', NL, NL]"

text \<open>The link for the name service switch, as the table of symbolic links lists it.\<close>

definition nsswitch_link :: authselect_symlink where
  "nsswitch_link =
     \<lparr> name = ''/etc/nsswitch.conf'', dest = ''/etc/authselect/nsswitch.conf'' \<rparr>"

definition system_auth :: authselect_generated where
  "system_auth = \<lparr> path = ''/etc/authselect/system-auth'', content = Some example_body \<rparr>"

definition password_auth :: authselect_generated where
  "password_auth = \<lparr> path = ''/etc/authselect/password-auth'', content = None \<rparr>"

text \<open>A host with the profile \<open>sssd\<close> recorded, which compiles to no file at all.\<close>

definition configured_host :: world where
  "configured_host =
     bare_host\<lparr> authselect_read_conf := (EOK, ''sssd'', []),
                authselect_cat := (\<lambda>_ _. (EOK, [])),
                SYMLINK_FILES := [nsswitch_link] \<rparr>"

text \<open>The directory of the link cannot be searched: \<open>lstat\<close> fails with \<open>EACCES\<close>.\<close>

definition host_lstat_denied :: world where
  "host_lstat_denied =
     configured_host\<lparr>
       lstat := (\<lambda>p. if p = ''/etc/nsswitch.conf'' then Inl EACCES else Inl ENOENT) \<rparr>"

text \<open>
  The profile compiles to two files; the first cannot be opened for reading, reading
  the second ends in an input/output error.
\<close>

definition host_unreadable :: world where
  "host_unreadable =
     configured_host\<lparr>
       authselect_cat := (\<lambda>_ _. (EOK, [system_auth, password_auth])),
       read_textfile := (\<lambda>p. if p = ''/etc/authselect/system-auth'' then (EACCES, [])
                              else (EIO, [])) \<rparr>"

text \<open>The link is in place and points to its destination, with the mode 0755.\<close>

definition host_link_mode :: world where
  "host_link_mode =
     configured_host\<lparr>
       lstat := (\<lambda>p. if p = ''/etc/nsswitch.conf''
                       then Inr \<lparr> st_mode = 0xA1ED, st_uid = 0, st_gid = 0 \<rparr>
                       else Inl ENOENT),
       readlink := (\<lambda>p. if p = ''/etc/nsswitch.conf''
                          then Inr ''/etc/authselect/nsswitch.conf'' else Inl ENOENT) \<rparr>"

text \<open>The link is in place with the mode 0777 and points to the directory \<open>/etc/authselect\<close>.\<close>

definition host_link_prefix :: world where
  "host_link_prefix =
     configured_host\<lparr>
       lstat := (\<lambda>p. if p = ''/etc/nsswitch.conf''
                       then Inr \<lparr> st_mode = 0xA1FF, st_uid = 0, st_gid = 0 \<rparr>
                       else Inl ENOENT),
       readlink := (\<lambda>p. if p = ''/etc/nsswitch.conf''
                          then Inr ''/etc/authselect'' else Inl ENOENT) \<rparr>"

text \<open>
  No profile is recorded and no generated file is left; \<open>/etc/nsswitch.conf\<close> is a
  symbolic link to the directory \<open>/etc/authselect\<close>.
\<close>

definition host_leftover_prefix :: world where
  "host_leftover_prefix =
     bare_host\<lparr>
       GENERATED_FILES_PATHS := [\<lparr> path = ''/etc/authselect/nsswitch.conf'', content = None \<rparr>],
       SYMLINK_FILES := [nsswitch_link],
       access := (\<lambda>p. if p = ''/etc/nsswitch.conf'' then Inr () else Inl ENOENT),
       lstat := (\<lambda>p. if p = ''/etc/nsswitch.conf''
                       then Inr \<lparr> st_mode = 0xA1FF, st_uid = 0, st_gid = 0 \<rparr>
                       else Inl ENOENT),
       readlink := (\<lambda>p. if p = ''/etc/nsswitch.conf''
                          then Inr ''/etc/authselect'' else Inl ENOENT) \<rparr>"

text \<open>The recorded profile does not compile.\<close>

definition host_compile_fails :: world where
  "host_compile_fails = configured_host\<lparr> authselect_cat := (\<lambda>_ _. (EINVAL, [])) \<rparr>"

text \<open>The record of the active profile cannot be read; nor can the links be looked up.\<close>

definition host_io_error :: world where
  "host_io_error =
     configured_host\<lparr>
       authselect_read_conf := (EIO, [], []),
       access := (\<lambda>p. if p = ''/etc/nsswitch.conf'' then Inl EACCES else Inl ENOENT) \<rparr>"

text \<open>The file can be read and has the expected text, but \<open>lstat\<close> does not find it.\<close>

definition host_file_vanished :: world where
  "host_file_vanished = bare_host\<lparr> read_textfile := (\<lambda>_. (EOK, example_text)) \<rparr>"

text \<open>The file can be read and has the expected text; \<open>lstat\<close> ends in an input/output error.\<close>

definition host_file_lstat_eio :: world where
  "host_file_lstat_eio =
     bare_host\<lparr> read_textfile := (\<lambda>_. (EOK, example_text)), lstat := (\<lambda>_. Inl EIO) \<rparr>"

text \<open>The link is in place with the mode 0777 and points to its destination.\<close>

definition host_link_ok :: world where
  "host_link_ok =
     configured_host\<lparr>
       lstat := (\<lambda>p. if p = ''/etc/nsswitch.conf''
                       then Inr \<lparr> st_mode = 0xA1FF, st_uid = 0, st_gid = 0 \<rparr>
                       else Inl ENOENT),
       readlink := (\<lambda>p. if p = ''/etc/nsswitch.conf''
                          then Inr ''/etc/authselect/nsswitch.conf'' else Inl ENOENT) \<rparr>"

text \<open>As before, and the profile compiles to one file, which cannot be opened for reading.\<close>

definition host_denied_read :: world where
  "host_denied_read =
     host_link_ok\<lparr>
       authselect_cat := (\<lambda>_ _. (EOK, [system_auth])),
       read_textfile := (\<lambda>_. (EACCES, [])) \<rparr>"

text \<open>A generated file with an empty body, in place as generated.\<close>

definition host_generated_empty :: world where
  "host_generated_empty =
     bare_host\<lparr>
       read_textfile := (\<lambda>_. (EOK, example_text_empty_body)),
       lstat := (\<lambda>_. Inr \<lparr> st_mode = 0x81A4, st_uid = 0, st_gid = 0 \<rparr>) \<rparr>"

section \<open>Notions for the statements about the catalog\<close>

text \<open>\<open>enough h n\<close>: the next \<open>n\<close> allocations succeed; \<open>consume h n\<close>: the memory after them.\<close>

fun enough :: "heap \<Rightarrow> nat \<Rightarrow> bool" where
  "enough None n = True"
| "enough (Some m) n = (n \<le> m)"

fun consume :: "heap \<Rightarrow> nat \<Rightarrow> heap" where
  "consume None n = None"
| "consume (Some m) n = Some (m - n)"

text \<open>
  The order of \<open>sort_profile_ids\<close> on strings, as a key: plain identifiers before
  custom ones, bytes deciding within each class.
\<close>

definition profile_key :: "string \<Rightarrow> bool \<times> string" where
  "profile_key s = (authselect_is_custom_profile s, s)"

text \<open>
  The entries before sorting, as the specification lists them: all of the default
  source, the vendor entries that the default source does not have, and every custom
  entry in its namespaced form.
\<close>

definition merged :: "string list \<Rightarrow> string list \<Rightarrow> string list \<Rightarrow> string list" where
  "merged d v c = d @ filter (\<lambda>p. p \<notin> set d) v @ map (\<lambda>p. ''custom/'' @ p) c"

text \<open>The three sources of the example of the specification, and rearrangements.\<close>

definition default_dir :: authselect_dir where
  "default_dir = \<lparr> profiles = [''sssd'', ''winbind''] \<rparr>"

definition vendor_dir :: authselect_dir where
  "vendor_dir = \<lparr> profiles = [''winbind'', ''local''] \<rparr>"

definition custom_dir :: authselect_dir where
  "custom_dir = \<lparr> profiles = [''mine''] \<rparr>"

definition default_dir_swapped :: authselect_dir where
  "default_dir_swapped = \<lparr> profiles = [''winbind'', ''sssd''] \<rparr>"

definition vendor_dir_swapped :: authselect_dir where
  "vendor_dir_swapped = \<lparr> profiles = [''local'', ''winbind''] \<rparr>"

definition vendor_dir_twice :: authselect_dir where
  "vendor_dir_twice = \<lparr> profiles = [''local'', ''local''] \<rparr>"

section \<open>Facts about the string functions\<close>

lemma strcmp_eq_0_iff: "strcmp a b = 0 \<longleftrightarrow> a = b"
  by (induction a b rule: strcmp.induct) auto

lemma strchr_NL_Some_iff:
  "strchr s NL = Some p \<longleftrightarrow> (\<exists>l r. NL \<notin> set l \<and> s = l @ NL # r \<and> p = NL # r)"
proof (induction s)
  case Nil
  then show ?case by simp
next
  case (Cons x xs)
  show ?case
  proof (cases "x = NL")
    case True
    have "(\<exists>l r. NL \<notin> set l \<and> NL # xs = l @ NL # r \<and> p = NL # r) \<longleftrightarrow> p = NL # xs"
    proof
      assume "\<exists>l r. NL \<notin> set l \<and> NL # xs = l @ NL # r \<and> p = NL # r"
      then obtain l r where h: "NL \<notin> set l" "NL # xs = l @ NL # r" "p = NL # r"
        by blast
      from h(1,2) have "l = []" by (cases l) auto
      with h show "p = NL # xs" by simp
    next
      assume "p = NL # xs"
      then have "NL \<notin> set [] \<and> NL # xs = [] @ NL # xs \<and> p = NL # xs" by simp
      then show "\<exists>l r. NL \<notin> set l \<and> NL # xs = l @ NL # r \<and> p = NL # r" by blast
    qed
    with True show ?thesis by auto
  next
    case False
    have "(\<exists>l r. NL \<notin> set l \<and> x # xs = l @ NL # r \<and> p = NL # r)
          \<longleftrightarrow> (\<exists>l r. NL \<notin> set l \<and> xs = l @ NL # r \<and> p = NL # r)"
    proof
      assume "\<exists>l r. NL \<notin> set l \<and> x # xs = l @ NL # r \<and> p = NL # r"
      then obtain l r where h: "NL \<notin> set l" "x # xs = l @ NL # r" "p = NL # r"
        by blast
      from h(2) False obtain l' where l: "l = x # l'" by (cases l) auto
      with h have "NL \<notin> set l' \<and> xs = l' @ NL # r \<and> p = NL # r" by simp
      then show "\<exists>l r. NL \<notin> set l \<and> xs = l @ NL # r \<and> p = NL # r" by blast
    next
      assume "\<exists>l r. NL \<notin> set l \<and> xs = l @ NL # r \<and> p = NL # r"
      then obtain l r where h: "NL \<notin> set l" "xs = l @ NL # r" "p = NL # r"
        by blast
      with False have "NL \<notin> set (x # l) \<and> x # xs = (x # l) @ NL # r \<and> p = NL # r"
        by simp
      then show "\<exists>l r. NL \<notin> set l \<and> x # xs = l @ NL # r \<and> p = NL # r" by blast
    qed
    with False Cons.IH show ?thesis by simp
  qed
qed

lemma strchr_NL_None_iff: "strchr s NL = None \<longleftrightarrow> NL \<notin> set s"
  by (induction s) auto


lemma strchr_NL_append: "NL \<notin> set l \<Longrightarrow> strchr (l @ NL # r) NL = Some (NL # r)"
  by (induction l) auto

lemma check_content_form:
  assumes "NL \<notin> set l1" "NL \<notin> set l2"
  shows "check_content (CHR ''#'' # l1 @ NL # CHR ''#'' # l2 @ NL # NL # e) e"
proof -
  have 1: "strchr (CHR ''#'' # l1 @ NL # CHR ''#'' # l2 @ NL # NL # e) NL
           = Some (NL # CHR ''#'' # l2 @ NL # NL # e)"
    using strchr_NL_append [OF assms(1)] by simp
  have 2: "strchr (CHR ''#'' # l2 @ NL # NL # e) NL = Some (NL # NL # e)"
    using strchr_NL_append [OF assms(2)] by simp
  show ?thesis
    by (simp add: check_content_def 1 2 strcmp_eq_0_iff del: strchr.simps)
qed

lemma check_content_imp:
  assumes "check_content c e"
  shows "\<exists>l1 l2. NL \<notin> set l1 \<and> NL \<notin> set l2 \<and>
           c = CHR ''#'' # l1 @ NL # CHR ''#'' # l2 @ NL # NL # e"
proof -
  from assms have h0: "deref c = CHR ''#''"
    by (auto simp: check_content_def split: if_splits)
  from assms h0 obtain p1 where p1: "strchr c NL = Some p1"
    by (auto simp: check_content_def split: if_splits option.splits)
  from assms h0 p1 have h1: "deref (tl p1) = CHR ''#''"
    by (auto simp: check_content_def Let_def split: if_splits)
  from assms h0 p1 h1 obtain p2 where p2: "strchr (tl p1) NL = Some p2"
    by (auto simp: check_content_def Let_def split: if_splits option.splits)
  from assms h0 p1 h1 p2 have h2: "deref (tl p2) = NL" and h3: "strcmp (tl (tl p2)) e = 0"
    by (auto simp: check_content_def Let_def split: if_splits)
  from p1 obtain k1 r1 where k1: "NL \<notin> set k1" "c = k1 @ NL # r1" "p1 = NL # r1"
    unfolding strchr_NL_Some_iff by blast
  from p2 k1 obtain k2 r2 where k2: "NL \<notin> set k2" "r1 = k2 @ NL # r2" "p2 = NL # r2"
    unfolding strchr_NL_Some_iff by auto
  from h0 k1 obtain l1 where l1: "k1 = CHR ''#'' # l1" by (cases k1) auto
  from h1 k1 k2 obtain l2 where l2: "k2 = CHR ''#'' # l2" by (cases k2) auto
  from h2 k2 obtain r3 where r3: "r2 = NL # r3" by (cases r2) auto
  from h3 k2 r3 have "r3 = e" by (simp add: strcmp_eq_0_iff)
  with k1 k2 l1 l2 r3 have "NL \<notin> set l1 \<and> NL \<notin> set l2 \<and>
           c = CHR ''#'' # l1 @ NL # CHR ''#'' # l2 @ NL # NL # e" by simp
  then show ?thesis by blast
qed

lemma check_content_generated_form: "check_content c e \<longleftrightarrow> generated_form c e"
proof
  assume "check_content c e"
  from check_content_imp [OF this] show "generated_form c e"
    by (simp add: generated_form_def)
next
  assume "generated_form c e"
  then obtain l1 l2 where "NL \<notin> set l1" "NL \<notin> set l2"
    "c = CHR ''#'' # l1 @ NL # CHR ''#'' # l2 @ NL # NL # e"
    by (auto simp: generated_form_def)
  then show "check_content c e"
    using check_content_form by blast
qed

section \<open>Facts about the verifier\<close>

lemma strncmp_eq_0_iff: "strncmp a b n = 0 \<longleftrightarrow> take n a = take n b"
  by (induction a b n rule: strncmp.induct) auto

lemma strncmp_length: "strncmp a b (length a) = 0 \<longleftrightarrow> take (length a) b = a"
  using strncmp_eq_0_iff [of a b "length a"] by auto

lemma check_missing_conf_unchanged:
  "fst (check_missing_conf w v) \<noteq> EOK \<Longrightarrow> snd (check_missing_conf w v) = v"
  by (auto simp: check_missing_conf_def Let_def split: prod.splits if_splits)

lemma check_existing_conf_unchanged:
  "fst (check_existing_conf w pid fs v) \<noteq> EOK \<Longrightarrow> snd (check_existing_conf w pid fs v) = v"
  by (auto simp: check_existing_conf_def Let_def split: prod.splits if_splits)

lemma check_existing_conf_files_fail:
  assumes "authselect_cat w pid fs = (EOK, files)"
    and "check_generated_files_loop w files True False = (e, r)" and "e \<noteq> EOK"
  shows "check_existing_conf w pid fs v = (e, v)"
  using assms by (simp add: check_existing_conf_def check_generated_files_def)

lemma check_notalink_symlink:
  assumes "lstat w lp = Inr sb" and "S_ISLNK (st_mode sb)"
    and "readlink_buf w lp (PATH_MAX + 1) = Inr t"
  shows "check_notalink w lp d v = (EOK, take (length t) d \<noteq> t)"
  using assms by (simp add: check_notalink_def strncmp_length)

lemma check_notalink_other:
  "lstat w lp = Inl ENOENT \<Longrightarrow> check_notalink w lp d v = (EOK, True)"
  "lstat w lp = Inr sb \<Longrightarrow> \<not> S_ISLNK (st_mode sb) \<Longrightarrow> check_notalink w lp d v = (EOK, True)"
  by (simp_all add: check_notalink_def)

lemma check_generated_file_read_ok:
  assumes "read_textfile w p = (EOK, c)"
  shows "check_generated_file w p e v =
     (if check_content c (case e of None \<Rightarrow> [] | Some b \<Rightarrow> b)
      then (if fst (check_file w p (AUTHSELECT_UID w) (AUTHSELECT_GID w)
                      (S_IRUSR OR S_IWUSR OR S_IRGRP OR S_IROTH) (indeterminate w)) \<noteq> EOK
            then (fst (check_file w p (AUTHSELECT_UID w) (AUTHSELECT_GID w)
                      (S_IRUSR OR S_IWUSR OR S_IRGRP OR S_IROTH) (indeterminate w)), v)
            else (EOK, snd (check_file w p (AUTHSELECT_UID w) (AUTHSELECT_GID w)
                      (S_IRUSR OR S_IWUSR OR S_IRGRP OR S_IROTH) (indeterminate w))))
      else (EOK, False))"
  using assms by (simp add: check_generated_file_def split_def Let_def)

lemma check_generated_file_null: 
  "check_generated_file w p None v = check_generated_file w p (Some []) v"
  by (simp add: check_generated_file_def split_def Let_def)











lemmas host_defs =
  bare_host_def configured_host_def host_lstat_denied_def host_unreadable_def
  host_link_mode_def host_link_prefix_def host_leftover_prefix_def host_compile_fails_def
  host_io_error_def nsswitch_link_def system_auth_def password_auth_def
  host_no_blank_def host_generated_def host_generated_empty_def host_file_vanished_def
  host_file_lstat_eio_def host_link_ok_def host_denied_read_def

section \<open>Facts about the catalog\<close>

lemma enough_Suc: "enough h (Suc n) \<longleftrightarrow> fst (alloc h) \<and> enough (snd (alloc h)) n"
  by (cases h rule: alloc.cases) auto

lemma consume_alloc: "fst (alloc h) \<Longrightarrow> consume (snd (alloc h)) n = consume h (Suc n)"
  by (cases h rule: alloc.cases) auto

lemma consume_Suc: "consume (consume h (Suc 0)) n = consume h (Suc n)"
  by (cases h) auto

lemma enough_add: "enough h (a + b) \<longleftrightarrow> enough h a \<and> enough (consume h a) b"
  by (cases h) auto

lemma consume_add: "consume (consume h a) b = consume h (a + b)"
  by (cases h) auto

lemma enough_0 [simp]: "enough h 0"
  by (cases h) auto

lemma consume_0 [simp]: "consume h 0 = h"
  by (cases h) auto

lemma merge_default_loop_ok:
  "enough h (length ps) \<Longrightarrow>
   merge_default_loop ids ps h = (EOK, ids @ ps, consume h (length ps))"
  by (induction ps arbitrary: ids h)
    (auto simp: enough_Suc consume_alloc split_def Let_def)

lemma merge_default_loop_fail:
  "\<not> enough h (length ps) \<Longrightarrow> fst (merge_default_loop ids ps h) = ENOMEM"
  by (induction ps arbitrary: ids h) (auto simp: enough_Suc split_def Let_def)

lemma merge_vendor_scan_end:
  "merge_vendor_scan p xs j = j + length xs \<longleftrightarrow> p \<notin> set xs"
proof (induction xs arbitrary: j)
  case Nil
  then show ?case by simp
next
  case (Cons x xs)
  from Cons.IH [of "Suc j"]
  have "merge_vendor_scan p xs (Suc j) = j + length (x # xs) \<longleftrightarrow> p \<notin> set xs" by simp
  then show ?case by (simp add: strcmp_eq_0_iff)
qed

lemma merge_vendor_loop_ok:
  "n \<le> length ids \<Longrightarrow>
   enough h (length (filter (\<lambda>p. p \<notin> set (take n ids)) ps)) \<Longrightarrow>
   merge_vendor_loop n ids ps h =
     (EOK, ids @ filter (\<lambda>p. p \<notin> set (take n ids)) ps,
      consume h (length (filter (\<lambda>p. p \<notin> set (take n ids)) ps)))"
proof (induction ps arbitrary: ids h)
  case Nil
  then show ?case by simp
next
  case (Cons p ps)
  have len: "length (take n ids) = n" using Cons.prems(1) by simp
  have scan: "merge_vendor_scan p (take n ids) 0 = n \<longleftrightarrow> p \<notin> set (take n ids)"
    using merge_vendor_scan_end [of p "take n ids" 0] len by simp
  show ?case
  proof (cases "p \<in> set (take n ids)")
    case True
    with Cons scan show ?thesis by simp
  next
    case False
    have tk: "take n (ids @ [p]) = take n ids" using Cons.prems(1) by simp
    from False Cons.prems(2) have e1: "fst (alloc h)"
      and e2: "enough (snd (alloc h)) (length (filter (\<lambda>p. p \<notin> set (take n ids)) ps))"
      by (simp_all add: enough_Suc)
    have "n \<le> length (ids @ [p])" using Cons.prems(1) by simp
    from Cons.IH [OF this, of "snd (alloc h)"] e2 tk
    have "merge_vendor_loop n (ids @ [p]) ps (snd (alloc h)) =
      (EOK, (ids @ [p]) @ filter (\<lambda>p. p \<notin> set (take n ids)) ps,
       consume (snd (alloc h)) (length (filter (\<lambda>p. p \<notin> set (take n ids)) ps)))"
      by simp
    with False scan e1 show ?thesis
      by (simp add: consume_alloc split_def Let_def)
  qed
qed

lemma merge_vendor_loop_fail:
  "n \<le> length ids \<Longrightarrow>
   \<not> enough h (length (filter (\<lambda>p. p \<notin> set (take n ids)) ps)) \<Longrightarrow>
   fst (merge_vendor_loop n ids ps h) = ENOMEM"
proof (induction ps arbitrary: ids h)
  case Nil
  then show ?case by simp
next
  case (Cons p ps)
  have len: "length (take n ids) = n" using Cons.prems(1) by simp
  have scan: "merge_vendor_scan p (take n ids) 0 = n \<longleftrightarrow> p \<notin> set (take n ids)"
    using merge_vendor_scan_end [of p "take n ids" 0] len by simp
  show ?case
  proof (cases "p \<in> set (take n ids)")
    case True
    with Cons scan show ?thesis by simp
  next
    case False
    have tk: "take n (ids @ [p]) = take n ids" using Cons.prems(1) by simp
    have le: "n \<le> length (ids @ [p])" using Cons.prems(1) by simp
    show ?thesis
    proof (cases "fst (alloc h)")
      case e1: False
      with False scan show ?thesis by (simp add: split_def Let_def)
    next
      case e1: True
      with False Cons.prems(2)
      have "\<not> enough (snd (alloc h)) (length (filter (\<lambda>p. p \<notin> set (take n ids)) ps))"
        by (simp add: enough_Suc)
      with Cons.IH [OF le, of "snd (alloc h)"] tk
      have "fst (merge_vendor_loop n (ids @ [p]) ps (snd (alloc h))) = ENOMEM" by simp
      with False scan e1 show ?thesis by (simp add: split_def Let_def)
    qed
  qed
qed

lemma custom_id_cases:
  "authselect_profile_custom_id p h =
     (if fst (alloc h) then (Some (''custom/'' @ p), snd (alloc h)) else (None, snd (alloc h)))"
  by (simp add: authselect_profile_custom_id_def split_def Let_def)

lemma merge_custom_loop_ok:
  "enough h (length ps) \<Longrightarrow>
   merge_custom_loop ids ps h =
     (EOK, ids @ map (\<lambda>p. ''custom/'' @ p) ps, consume h (length ps))"
  by (induction ps arbitrary: ids h) (auto simp: custom_id_cases enough_Suc consume_alloc)

lemma merge_custom_loop_fail:
  "\<not> enough h (length ps) \<Longrightarrow> fst (merge_custom_loop ids ps h) = ENOMEM"
  by (induction ps arbitrary: ids h) (auto simp: custom_id_cases enough_Suc)


lemma strcmp_le_0_iff: "strcmp a b \<le> 0 \<longleftrightarrow> a \<le> b"
  by (induction a b rule: strcmp.induct) (auto simp: less_char_def)

lemma sort_profile_ids_le:
  "sort_profile_ids (Some a) (Some b) \<le> 0 \<longleftrightarrow> profile_key a \<le> profile_key b"
  by (auto simp: profile_key_def Let_def less_eq_prod_def strcmp_le_0_iff)

lemma inj_profile_key: "inj profile_key"
  by (rule injI) (simp add: profile_key_def)

lemma qsort_insert_Some:
  "qsort_insert sort_profile_ids (Some x) (map Some ys @ [None])
     = map Some (insort_key profile_key x ys) @ [None]"
  by (induction ys) (simp_all add: sort_profile_ids_le del: sort_profile_ids.simps(3))

lemma qsort_foldr_Some:
  "foldr (qsort_insert sort_profile_ids) (map Some xs) [None]
     = map Some (sort_key profile_key xs) @ [None]"
  by (induction xs) (simp_all add: sort_key_def qsort_insert_Some)

lemma qsort_sort_key:
  "qsort sort_profile_ids (map Some xs @ [None]) = map Some (sort_key profile_key xs) @ [None]"
  by (simp add: qsort_def qsort_foldr_Some)

lemma string_array_Some: "string_array (map Some xs @ [None]) = xs"
  by (induction xs) (simp_all add: string_array_def)

lemma sort_key_unique:
  assumes "inj f" and "mset ys = mset xs" and "sorted (map f ys)"
  shows "sort_key f xs = ys"
proof (rule properties_for_sort_key)
  show "mset ys = mset xs" by (rule assms(2))
  show "sorted (map f ys)" by (rule assms(3))
  fix k
  have eq: "(f k = f x) = (k = x)" for x using assms(1) by (auto dest: injD)
  have "filter (\<lambda>x. k = x) zs = replicate (count (mset zs) k) k" for zs :: "'a list"
    by (induction zs) auto
  then have "filter (\<lambda>x. k = x) ys = filter (\<lambda>x. k = x) xs"
    using assms(2) by simp
  then show "filter (\<lambda>x. f k = f x) ys = filter (\<lambda>x. f k = f x) xs"
    by (simp add: eq)
qed

lemma sort_key_permutation:
  assumes "inj f" and "mset xs = mset ys"
  shows "sort_key f xs = sort_key f ys"
  using assms by (intro sort_key_unique) simp_all

lemma sorted_arrangement_unique:
  assumes "mset ys = mset xs"
    and "sorted_wrt (\<lambda>a b. sort_profile_ids (Some a) (Some b) \<le> 0) ys"
  shows "ys = sort_key profile_key xs"
proof -
  have "sorted_wrt (\<lambda>a b. profile_key a \<le> profile_key b) ys"
    using assms(2) by (simp only: sort_profile_ids_le)
  then have "sorted (map profile_key ys)"
    by (simp add: sorted_wrt_map)
  with inj_profile_key assms(1) show ?thesis
    by (rule sort_key_unique [symmetric])
qed

lemma authselect_merge_profiles_char:
  "authselect_merge_profiles P V C h =
     (if enough h (Suc (length (merged (profiles P) (profiles V) (profiles C))))
      then Some (sort_key profile_key (merged (profiles P) (profiles V) (profiles C)))
      else None)"
proof -
  let ?d = "profiles P" and ?v = "profiles V" and ?c = "profiles C"
  let ?f = "filter (\<lambda>p. p \<notin> set ?d) ?v"
  let ?h1 = "snd (alloc h)"
  let ?h2 = "consume ?h1 (length ?d)"
  let ?h3 = "consume ?h2 (length ?f)"
  have en: "enough h (Suc (length (merged ?d ?v ?c))) \<longleftrightarrow>
        fst (alloc h) \<and> enough ?h1 (length ?d) \<and> enough ?h2 (length ?f) \<and>
        enough ?h3 (length ?c)"
    by (simp add: merged_def enough_Suc enough_add conj_ac)
  show ?thesis
  proof (cases "fst (alloc h)")
    case False
    then show ?thesis
      by (simp add: authselect_merge_profiles_def split_def Let_def en)
  next
    case a: True
    show ?thesis
    proof (cases "enough ?h1 (length ?d)")
      case False
      with a merge_default_loop_fail [of ?h1 ?d "[]"] show ?thesis
        by (simp add: authselect_merge_profiles_def merge_default_def split_def Let_def en)
    next
      case d: True
      have md: "merge_default [] P ?h1 = (EOK, ?d, ?h2)"
        using merge_default_loop_ok [OF d, of "[]"] by (simp add: merge_default_def)
      show ?thesis
      proof (cases "enough ?h2 (length ?f)")
        case False
        with merge_vendor_loop_fail [of "length ?d" ?d ?h2 ?v]
        have "fst (merge_vendor ?d V ?h2) = ENOMEM"
          by (simp add: merge_vendor_def)
        with a d False md show ?thesis
          by (simp add: authselect_merge_profiles_def split_def Let_def en)
      next
        case v: True
        with merge_vendor_loop_ok [of "length ?d" ?d ?h2 ?v]
        have mv: "merge_vendor ?d V ?h2 = (EOK, ?d @ ?f, ?h3)"
          by (simp add: merge_vendor_def)
        show ?thesis
        proof (cases "enough ?h3 (length ?c)")
          case False
          with merge_custom_loop_fail [of ?h3 ?c "?d @ ?f"]
          have "fst (merge_custom (?d @ ?f) C ?h3) = ENOMEM"
            by (simp add: merge_custom_def)
          with a d v False md mv show ?thesis
            by (simp add: authselect_merge_profiles_def split_def Let_def en)
        next
          case c: True
          with merge_custom_loop_ok [of ?h3 ?c "?d @ ?f"]
          have mc: "merge_custom (?d @ ?f) C ?h3
                      = (EOK, merged ?d ?v ?c, consume ?h3 (length ?c))"
            by (simp add: merge_custom_def merged_def)
          with a d v c md mv show ?thesis
            by (simp add: authselect_merge_profiles_def split_def Let_def en
                qsort_sort_key string_array_Some)
        qed
      qed
    qed
  qed
qed


lemmas dir_defs = default_dir_def vendor_dir_def custom_dir_def default_dir_swapped_def
  vendor_dir_swapped_def vendor_dir_twice_def

lemma merge_vendor_result:
  "fst (merge_vendor ids V h) = EOK \<Longrightarrow>
   fst (snd (merge_vendor ids V h)) = ids @ filter (\<lambda>p. p \<notin> set ids) (profiles V)"
proof (cases "enough h (length (filter (\<lambda>p. p \<notin> set ids) (profiles V)))")
  case True
  with merge_vendor_loop_ok [of "length ids" ids h "profiles V"]
  show ?thesis by (simp add: merge_vendor_def)
next
  case False
  assume "fst (merge_vendor ids V h) = EOK"
  with False merge_vendor_loop_fail [of "length ids" ids h "profiles V"]
  show ?thesis by (simp add: merge_vendor_def)
qed

lemma count_merged:
  assumes "distinct d" "n \<in> set d" "CHR ''/'' \<notin> set n"
  shows "count_list (sort_key profile_key (merged d v c)) n = 1"
proof -
  have "count_list (sort_key profile_key (merged d v c)) n
          = count (mset (sort_key profile_key (merged d v c))) n"
    by (simp only: count_mset)
  also have "\<dots> = count (mset (merged d v c)) n" by simp
  also have "\<dots> = count_list d n + count_list (filter (\<lambda>p. p \<notin> set d) v) n
                    + count_list (map (\<lambda>p. ''custom/'' @ p) c) n"
    by (simp add: merged_def count_mset del: mset_filter mset_map)
  also have "count_list d n = 1"
    using assms(1,2) by (simp add: distinct_count_atmost_1 flip: count_mset)
  also have "count_list (filter (\<lambda>p. p \<notin> set d) v) n = 0"
    using assms(2) by (simp add: count_list_0_iff)
  also have "count_list (map (\<lambda>p. ''custom/'' @ p) c) n = 0"
    using assms(3) by (auto simp: count_list_0_iff)
  finally show ?thesis by simp
qed

lemma merged_example:
  "sort_key profile_key (merged (profiles default_dir) (profiles vendor_dir) (profiles custom_dir))
     = [''local'', ''sssd'', ''winbind'', ''custom/mine'']"
  by (simp add: dir_defs merged_def profile_key_def authselect_is_custom_profile_def)

lemma mset_merged:
  assumes "mset d' = mset d" "mset v' = mset v" "mset c' = mset c"
  shows "mset (merged d' v' c') = mset (merged d v c)"
proof -
  from assms(1) have "set d' = set d" by (rule mset_eq_setD)
  with assms show ?thesis by (simp add: merged_def)
qed

section \<open>The claims\<close>

text \<open>
  C1. The content of a generated file is judged valid exactly when it consists of a
  first line beginning with \<open>#\<close>, a second line beginning with \<open>#\<close>, one empty line and
  then a remainder equal to the expected body, whatever the two comment lines say.
  \<open>check_generated_file\<close> treats a null expected body as the empty body. When the text
  read from the file has the form, the verdict is that of the check of the file's
  metadata; when it deviates from the form, the file is marked invalid.
\<close>

theorem check_generated_file_content:
  "(check_content c b \<longleftrightarrow> generated_form c b) \<and>
   check_generated_file w p None v = check_generated_file w p (Some []) v \<and>
   (read_textfile w p = (EOK, c) \<and> generated_form c b
      \<longrightarrow> check_generated_file w p (Some b) v =
           (let r = check_file w p (AUTHSELECT_UID w) (AUTHSELECT_GID w)
                      (S_IRUSR OR S_IWUSR OR S_IRGRP OR S_IROTH) (indeterminate w)
            in if fst r \<noteq> EOK then (fst r, v) else (EOK, snd r))) \<and>
   (read_textfile w p = (EOK, c) \<and> generated_form c []
      \<longrightarrow> check_generated_file w p None v =
           (let r = check_file w p (AUTHSELECT_UID w) (AUTHSELECT_GID w)
                      (S_IRUSR OR S_IWUSR OR S_IRGRP OR S_IROTH) (indeterminate w)
            in if fst r \<noteq> EOK then (fst r, v) else (EOK, snd r))) \<and>
   (read_textfile w p = (EOK, c) \<and> \<not> generated_form c b
      \<longrightarrow> check_generated_file w p (Some b) v = (EOK, False)) \<and>
   (read_textfile w p = (EOK, c) \<and> \<not> generated_form c []
      \<longrightarrow> check_generated_file w p None v = (EOK, False))"
proof -
  have iff: "check_content c x \<longleftrightarrow> generated_form c x" for x
    by (rule check_content_generated_form)
  have n: "check_generated_file w p None v = check_generated_file w p (Some []) v"
    by (rule check_generated_file_null)
  have s: "check_generated_file w p (Some x) v =
      (if generated_form c x
       then (let r = check_file w p (AUTHSELECT_UID w) (AUTHSELECT_GID w)
                      (S_IRUSR OR S_IWUSR OR S_IRGRP OR S_IROTH) (indeterminate w)
             in if fst r \<noteq> EOK then (fst r, v) else (EOK, snd r))
       else (EOK, False))"
    if "read_textfile w p = (EOK, c)" for x
    using check_generated_file_read_ok [OF that, of "Some x" v] by (simp add: iff Let_def)
  from iff n s [of b] s [of "[]"] show ?thesis by simp
qed


theorem check_generated_file_content_witness:
  "check_content example_text example_body \<and>
   generated_form example_text example_body \<and>
   check_generated_file host_generated (path system_auth) None True
     = check_generated_file host_generated (path system_auth) (Some []) True \<and>
   read_textfile host_generated (path system_auth) = (EOK, example_text) \<and>
   check_generated_file host_generated (path system_auth) (Some example_body) False
     = (EOK, True) \<and>
   read_textfile host_generated_empty (path password_auth) = (EOK, example_text_empty_body) \<and>
   generated_form example_text_empty_body [] \<and>
   check_generated_file host_generated_empty (path password_auth) None False = (EOK, True) \<and>
   read_textfile host_no_blank (path system_auth) = (EOK, example_text_no_blank) \<and>
   \<not> generated_form example_text_no_blank example_body \<and>
   check_generated_file host_no_blank (path system_auth) (Some example_body) True
     = (EOK, False) \<and>
   \<not> generated_form example_text_no_blank [] \<and>
   check_generated_file host_no_blank (path system_auth) None True = (EOK, False)"
proof -
  note T = check_generated_file_content
  have cf: "check_file host_generated (path system_auth) (AUTHSELECT_UID host_generated)
      (AUTHSELECT_GID host_generated) (S_IRUSR OR S_IWUSR OR S_IRGRP OR S_IROTH)
      (indeterminate host_generated) = (EOK, True)"
    and cfe: "check_file host_generated_empty (path password_auth)
      (AUTHSELECT_UID host_generated_empty) (AUTHSELECT_GID host_generated_empty)
      (S_IRUSR OR S_IWUSR OR S_IRGRP OR S_IROTH) (indeterminate host_generated_empty)
        = (EOK, True)"
    by (simp_all add: host_defs check_file_def check_internal_def check_mode_def
        check_type_def)
  have 1: "check_content example_text example_body"
    by (simp add: check_content_def example_text_def example_body_def)
  from 1 T [of example_text example_body]
  have 2: "generated_form example_text example_body" by simp
  from T [of _ _ host_generated "path system_auth" True]
  have 3: "check_generated_file host_generated (path system_auth) None True
             = check_generated_file host_generated (path system_auth) (Some []) True"
    by simp
  have 4: "read_textfile host_generated (path system_auth) = (EOK, example_text)"
    by (simp add: host_defs)
  from 4 2 cf T [of example_text example_body host_generated "path system_auth" False]
  have 5: "check_generated_file host_generated (path system_auth) (Some example_body) False
             = (EOK, True)"
    by simp
  have 6: "read_textfile host_generated_empty (path password_auth)
             = (EOK, example_text_empty_body)"
    by (simp add: host_defs)
  have "check_content example_text_empty_body []"
    by (simp add: check_content_def example_text_empty_body_def)
  with T [of example_text_empty_body "[]"]
  have 7: "generated_form example_text_empty_body []" by simp
  from 6 7 cfe T [of example_text_empty_body _ host_generated_empty "path password_auth"
      False]
  have 8: "check_generated_file host_generated_empty (path password_auth) None False
             = (EOK, True)"
    by simp
  have 9: "read_textfile host_no_blank (path system_auth) = (EOK, example_text_no_blank)"
    by (simp add: host_defs)
  have "\<not> check_content example_text_no_blank example_body"
    by (simp add: check_content_def example_text_no_blank_def example_body_def)
  with T [of example_text_no_blank example_body]
  have 10: "\<not> generated_form example_text_no_blank example_body" by simp
  from 9 10 T [of example_text_no_blank example_body host_no_blank "path system_auth" True]
  have 11: "check_generated_file host_no_blank (path system_auth) (Some example_body) True
              = (EOK, False)"
    by simp
  have "\<not> check_content example_text_no_blank []"
    by (simp add: check_content_def example_text_no_blank_def example_body_def)
  with T [of example_text_no_blank "[]"]
  have 12: "\<not> generated_form example_text_no_blank []" by simp
  from 9 12 T [of example_text_no_blank _ host_no_blank "path system_auth" True]
  have 13: "check_generated_file host_no_blank (path system_auth) None True = (EOK, False)"
    by simp
  from 1 2 3 4 5 6 7 8 9 10 11 12 13 show ?thesis by blast
qed





text \<open>
  C3. \<open>merge_vendor\<close> appends a vendor identifier only if the same string is not among
  the entries that were in the array when it was called, which are those of the default
  source; other vendor entries are not looked at. Hence a name that the default source
  and the vendor source both list occurs exactly once in the catalog. The sources are
  directory listings: the names of the default source are pairwise different, and a
  directory name holds no slash.
\<close>

theorem merge_vendor_dedup:
  "(fst (merge_vendor ids V h) = EOK \<longrightarrow>
      fst (snd (merge_vendor ids V h)) = ids @ filter (\<lambda>p. p \<notin> set ids) (profiles V)) \<and>
   (authselect_merge_profiles P V C h = Some cat \<and> distinct (profiles P) \<and>
    n \<in> set (profiles P) \<and> n \<in> set (profiles V) \<and> CHR ''/'' \<notin> set n
      \<longrightarrow> count_list cat n = 1)"
  using merge_vendor_result [of ids V h] count_merged [of "profiles P" n "profiles V" "profiles C"]
  by (auto simp: authselect_merge_profiles_char split: if_splits)

theorem merge_vendor_dedup_witness:
  "fst (merge_vendor (profiles default_dir) vendor_dir None) = EOK \<and>
   fst (snd (merge_vendor (profiles default_dir) vendor_dir None))
     = [''sssd'', ''winbind'', ''local''] \<and>
   fst (merge_vendor [''sssd''] vendor_dir_twice None) = EOK \<and>
   fst (snd (merge_vendor [''sssd''] vendor_dir_twice None)) = [''sssd'', ''local'', ''local''] \<and>
   authselect_merge_profiles default_dir vendor_dir custom_dir None
     = Some [''local'', ''sssd'', ''winbind'', ''custom/mine''] \<and>
   distinct (profiles default_dir) \<and>
   ''winbind'' \<in> set (profiles default_dir) \<and> ''winbind'' \<in> set (profiles vendor_dir) \<and>
   CHR ''/'' \<notin> set ''winbind'' \<and>
   count_list [''local'', ''sssd'', ''winbind'', ''custom/mine''] ''winbind'' = 1"
proof -
  have h1: "fst (merge_vendor (profiles default_dir) vendor_dir None) = EOK"
    and h2: "fst (merge_vendor [''sssd''] vendor_dir_twice None) = EOK"
    by (simp_all add: dir_defs merge_vendor_def strcmp_eq_0_iff)
  from h1 merge_vendor_dedup [where ids = "profiles default_dir" and V = vendor_dir
      and h = None]
  have c1: "fst (snd (merge_vendor (profiles default_dir) vendor_dir None))
              = [''sssd'', ''winbind'', ''local'']"
    by (simp add: dir_defs)
  from h2 merge_vendor_dedup [where ids = "[''sssd'']" and V = vendor_dir_twice and h = None]
  have c2: "fst (snd (merge_vendor [''sssd''] vendor_dir_twice None))
              = [''sssd'', ''local'', ''local'']"
    by (simp add: dir_defs)
  have h3: "authselect_merge_profiles default_dir vendor_dir custom_dir None
              = Some [''local'', ''sssd'', ''winbind'', ''custom/mine'']"
    by (simp add: authselect_merge_profiles_char merged_example)
  have h4: "distinct (profiles default_dir)"
    and h5: "''winbind'' \<in> set (profiles default_dir)"
    and h6: "''winbind'' \<in> set (profiles vendor_dir)"
    and h7: "CHR ''/'' \<notin> set ''winbind''"
    by (simp_all add: dir_defs)
  from h3 h4 h5 h6 h7 merge_vendor_dedup [where P = default_dir and V = vendor_dir
      and C = custom_dir and h = None and n = "''winbind''"
      and cat = "[''local'', ''sssd'', ''winbind'', ''custom/mine'']"]
  have c3: "count_list [''local'', ''sssd'', ''winbind'', ''custom/mine''] ''winbind'' = 1"
    by blast
  from h1 c1 h2 c2 h3 h4 h5 h6 h7 c3 show ?thesis by blast
qed

text \<open>
  C4. For the default source \<open>sssd\<close>, \<open>winbind\<close>, the vendor source \<open>winbind\<close>, \<open>local\<close>
  and the custom source \<open>mine\<close>, the merge returns \<open>local\<close>, \<open>sssd\<close>, \<open>winbind\<close>,
  \<open>custom/mine\<close>, in this order, whenever the five allocations it makes succeed, and
  the null pointer otherwise.
\<close>

theorem merge_example:
  "authselect_merge_profiles default_dir vendor_dir custom_dir h =
     (if enough h 5 then Some [''local'', ''sssd'', ''winbind'', ''custom/mine''] else None)"
proof -
  have "length (merged (profiles default_dir) (profiles vendor_dir) (profiles custom_dir)) = 4"
    by (simp add: dir_defs merged_def)
  then show ?thesis
    by (simp add: authselect_merge_profiles_char merged_example numeral_eq_Suc)
qed

theorem merge_example_witness:
  "enough None 5 \<and>
   authselect_merge_profiles default_dir vendor_dir custom_dir None
     = Some [''local'', ''sssd'', ''winbind'', ''custom/mine''] \<and>
   \<not> enough (Some 4) 5 \<and>
   authselect_merge_profiles default_dir vendor_dir custom_dir (Some 4) = None"
  using merge_example [of None] merge_example [of "Some 4"] by simp

text \<open>
  C5. When the entries of each source are pairwise different, listing the entries of
  the sources in another order leaves the result of the merge as it is.
\<close>

theorem merge_permutation_invariant:
  assumes "distinct (profiles P)" "distinct (profiles V)" "distinct (profiles C)"
    and "mset (profiles P') = mset (profiles P)"
    and "mset (profiles V') = mset (profiles V)"
    and "mset (profiles C') = mset (profiles C)"
  shows "authselect_merge_profiles P' V' C' h = authselect_merge_profiles P V C h"
proof -
  have m: "mset (merged (profiles P') (profiles V') (profiles C'))
             = mset (merged (profiles P) (profiles V) (profiles C))"
    using assms(4-6) by (rule mset_merged)
  then have "length (merged (profiles P') (profiles V') (profiles C'))
               = length (merged (profiles P) (profiles V) (profiles C))"
    by (rule mset_eq_length)
  moreover have "sort_key profile_key (merged (profiles P') (profiles V') (profiles C'))
                   = sort_key profile_key (merged (profiles P) (profiles V) (profiles C))"
    using inj_profile_key m by (rule sort_key_permutation)
  ultimately show ?thesis by (simp add: authselect_merge_profiles_char)
qed

theorem merge_permutation_invariant_witness:
  "distinct (profiles default_dir) \<and> distinct (profiles vendor_dir) \<and>
   distinct (profiles custom_dir) \<and>
   mset (profiles default_dir_swapped) = mset (profiles default_dir) \<and>
   mset (profiles vendor_dir_swapped) = mset (profiles vendor_dir) \<and>
   mset (profiles custom_dir) = mset (profiles custom_dir) \<and>
   authselect_merge_profiles default_dir vendor_dir custom_dir None
     = Some [''local'', ''sssd'', ''winbind'', ''custom/mine''] \<and>
   authselect_merge_profiles default_dir_swapped vendor_dir_swapped custom_dir None
     = Some [''local'', ''sssd'', ''winbind'', ''custom/mine'']"
proof -
  have h1: "distinct (profiles default_dir)" and h2: "distinct (profiles vendor_dir)"
    and h3: "distinct (profiles custom_dir)"
    and h4: "mset (profiles default_dir_swapped) = mset (profiles default_dir)"
    and h5: "mset (profiles vendor_dir_swapped) = mset (profiles vendor_dir)"
    and h6: "mset (profiles custom_dir) = mset (profiles custom_dir)"
    by (simp_all add: dir_defs)
  have e: "authselect_merge_profiles default_dir vendor_dir custom_dir None
             = Some [''local'', ''sssd'', ''winbind'', ''custom/mine'']"
    by (simp add: authselect_merge_profiles_char merged_example)
  have "authselect_merge_profiles default_dir_swapped vendor_dir_swapped custom_dir None
          = authselect_merge_profiles default_dir vendor_dir custom_dir None"
    by (rule merge_permutation_invariant [OF h1 h2 h3 h4 h5 h6])
  with e have c: "authselect_merge_profiles default_dir_swapped vendor_dir_swapped
      custom_dir None = Some [''local'', ''sssd'', ''winbind'', ''custom/mine'']"
    by simp
  from h1 h2 h3 h4 h5 h6 e c show ?thesis by blast
qed

text \<open>
  C6, at the input where the code departs from it. No profile is recorded, and at the
  path of an expected link there is a symbolic link to \<open>/etc/authselect\<close>, which is not
  the expected destination \<open>/etc/authselect/nsswitch.conf\<close> but a proper prefix of it:
  \<open>check_notalink\<close> takes the link for one of its own, and the leftover check reports
  the host as not clean.
\<close>

theorem leftover_prefix_link_flagged:
  "readlink host_leftover_prefix (name nsswitch_link) = Inr ''/etc/authselect'' \<and>
   ''/etc/authselect'' \<noteq> dest nsswitch_link \<and>
   check_notalink host_leftover_prefix (name nsswitch_link) (dest nsswitch_link) True
     = (EOK, False) \<and>
   check_missing_conf host_leftover_prefix True = (EOK, False)"
  by (simp add: host_defs check_missing_conf_def check_exists_def check_access_def
      check_notalink_def S_ISLNK_def readlink_buf_def)

text \<open>
  C7. When the link passes the check of type and mode and \<open>readlink\<close> hands back the
  target \<open>t\<close>, \<open>check_link\<close> compares \<open>t\<close> with the first \<open>length t\<close> bytes of the expected
  destination only. A link whose target is a proper prefix of the expected destination
  is therefore judged valid.
\<close>

theorem check_link_compares_prefix:
  assumes "lstat w lp = Inr sb"
    and "check_mode (Some sb) (- 1) (- 1) (S_IFLNK OR ACCESSPERMS)"
    and "readlink_buf w lp (PATH_MAX + 1) = Inr t"
  shows "check_link w lp d v = (EOK, take (length t) d = t)"
  using assms by (simp add: check_link_def check_internal_def strncmp_length)

theorem check_link_compares_prefix_witness:
  "lstat host_link_prefix (name nsswitch_link)
     = Inr \<lparr> st_mode = 0xA1FF, st_uid = 0, st_gid = 0 \<rparr> \<and>
   check_mode (Some \<lparr> st_mode = 0xA1FF, st_uid = 0, st_gid = 0 \<rparr>) (- 1) (- 1)
     (S_IFLNK OR ACCESSPERMS) \<and>
   readlink_buf host_link_prefix (name nsswitch_link) (PATH_MAX + 1)
     = Inr ''/etc/authselect'' \<and>
   ''/etc/authselect'' \<noteq> dest nsswitch_link \<and>
   length ''/etc/authselect'' < length (dest nsswitch_link) \<and>
   check_link host_link_prefix (name nsswitch_link) (dest nsswitch_link) False = (EOK, True)"
proof -
  have h1: "lstat host_link_prefix (name nsswitch_link)
              = Inr \<lparr> st_mode = 0xA1FF, st_uid = 0, st_gid = 0 \<rparr>"
    by (simp add: host_defs)
  have h2: "check_mode (Some \<lparr> st_mode = 0xA1FF, st_uid = 0, st_gid = 0 \<rparr>) (- 1) (- 1)
              (S_IFLNK OR ACCESSPERMS)"
    by (simp add: check_mode_def check_type_def)
  have h3: "readlink_buf host_link_prefix (name nsswitch_link) (PATH_MAX + 1)
              = Inr ''/etc/authselect''"
    by (simp add: host_defs readlink_buf_def)
  have h4: "''/etc/authselect'' \<noteq> dest nsswitch_link"
    and h5: "length ''/etc/authselect'' < length (dest nsswitch_link)"
    by (simp_all add: host_defs)
  have "check_link host_link_prefix (name nsswitch_link) (dest nsswitch_link) False
          = (EOK, take (length ''/etc/authselect'') (dest nsswitch_link) = ''/etc/authselect'')"
    by (rule check_link_compares_prefix [OF h1 h2 h3])
  then have c: "check_link host_link_prefix (name nsswitch_link) (dest nsswitch_link) False
                  = (EOK, True)"
    by (simp add: host_defs)
  from h1 h2 h3 h4 h5 c show ?thesis by simp
qed

text \<open>
  C8. When the record of the active profile is absent, \<open>authselect_check_conf\<close> runs
  the leftover check, puts its verdict into the output flag and returns \<open>ENOENT\<close>. When
  the record is there and the profile does not compile, the error of the compilation is
  returned and the output flag is not written.
\<close>

theorem check_conf_not_configured:
  "(fst (authselect_read_conf w) = ENOENT \<and> check_missing_conf w v = (EOK, b)
      \<longrightarrow> authselect_check_conf w v = (ENOENT, b)) \<and>
   (authselect_read_conf w = (EOK, pid, fs) \<and> fst (authselect_cat w pid fs) = e \<and> e \<noteq> EOK
      \<longrightarrow> authselect_check_conf w v = (e, v))"
  by (auto simp: authselect_check_conf_def check_existing_conf_def split: prod.splits)

theorem check_conf_not_configured_witness:
  "fst (authselect_read_conf host_leftover_prefix) = ENOENT \<and>
   check_missing_conf host_leftover_prefix True = (EOK, False) \<and>
   authselect_check_conf host_leftover_prefix True = (ENOENT, False) \<and>
   authselect_read_conf host_compile_fails = (EOK, ''sssd'', []) \<and>
   fst (authselect_cat host_compile_fails ''sssd'' []) = EINVAL \<and>
   authselect_check_conf host_compile_fails True = (EINVAL, True) \<and>
   authselect_check_conf host_compile_fails False = (EINVAL, False)"
proof -
  have h1: "fst (authselect_read_conf host_leftover_prefix) = ENOENT"
    by (simp add: host_defs)
  have h2: "check_missing_conf host_leftover_prefix True = (EOK, False)"
    by (simp add: host_defs check_missing_conf_def check_exists_def check_access_def
        check_notalink_def S_ISLNK_def readlink_buf_def)
  from h1 h2 check_conf_not_configured [where w = host_leftover_prefix and v = True
      and b = False]
  have c1: "authselect_check_conf host_leftover_prefix True = (ENOENT, False)"
    by simp
  have h3: "authselect_read_conf host_compile_fails = (EOK, ''sssd'', [])"
    and h4: "fst (authselect_cat host_compile_fails ''sssd'' []) = EINVAL"
    by (simp_all add: host_defs)
  from h3 h4 check_conf_not_configured [where w = host_compile_fails and pid = "''sssd''"
      and fs = "[]" and e = EINVAL and v = True]
  have c2: "authselect_check_conf host_compile_fails True = (EINVAL, True)"
    by simp
  from h3 h4 check_conf_not_configured [where w = host_compile_fails and pid = "''sssd''"
      and fs = "[]" and e = EINVAL and v = False]
  have c3: "authselect_check_conf host_compile_fails False = (EINVAL, False)"
    by simp
  from h1 h2 c1 h3 h4 c2 c3 show ?thesis by simp
qed

text \<open>
  C9. \<open>authselect_check_conf\<close> and \<open>authselect_check_symlinks_presence\<close> leave the
  caller's variable as it was whenever they return anything other than \<open>EOK\<close> or
  \<open>ENOENT\<close>: the out-parameter is assigned on a return of \<open>EOK\<close> or \<open>ENOENT\<close> only.
\<close>

theorem out_parameter_unchanged:
  "(fst (authselect_check_conf w v) \<noteq> EOK \<and> fst (authselect_check_conf w v) \<noteq> ENOENT
      \<longrightarrow> snd (authselect_check_conf w v) = v) \<and>
   (fst (authselect_check_symlinks_presence w v) \<noteq> EOK \<and>
    fst (authselect_check_symlinks_presence w v) \<noteq> ENOENT
      \<longrightarrow> snd (authselect_check_symlinks_presence w v) = v)"
proof -
  have 1: "snd (authselect_check_conf w v) = v"
    if "fst (authselect_check_conf w v) \<noteq> EOK" "fst (authselect_check_conf w v) \<noteq> ENOENT"
  proof -
    obtain ret pid fs where rc: "authselect_read_conf w = (ret, pid, fs)"
      by (cases "authselect_read_conf w") auto
    show ?thesis
    proof (cases "ret = ENOENT")
      case True
      with rc that check_missing_conf_unchanged [of w v] show ?thesis
        by (auto simp: authselect_check_conf_def split: prod.splits if_splits)
    next
      case False
      with rc that check_existing_conf_unchanged [of w pid fs v] show ?thesis
        by (auto simp: authselect_check_conf_def split: prod.splits if_splits)
    qed
  qed
  have 2: "snd (authselect_check_symlinks_presence w v) = v"
    if "fst (authselect_check_symlinks_presence w v) \<noteq> EOK"
    using that
    by (auto simp: authselect_check_symlinks_presence_def split: prod.splits if_splits)
  from 1 2 show ?thesis by blast
qed

theorem out_parameter_unchanged_witness:
  "fst (authselect_check_conf host_io_error True) = EIO \<and>
   snd (authselect_check_conf host_io_error True) = True \<and>
   fst (authselect_check_conf host_io_error False) = EIO \<and>
   snd (authselect_check_conf host_io_error False) = False \<and>
   fst (authselect_check_symlinks_presence host_io_error True) = EACCES \<and>
   snd (authselect_check_symlinks_presence host_io_error True) = True \<and>
   fst (authselect_check_symlinks_presence host_io_error False) = EACCES \<and>
   snd (authselect_check_symlinks_presence host_io_error False) = False"
proof -
  have h1: "fst (authselect_check_conf host_io_error v) = EIO" for v
    by (simp add: host_defs authselect_check_conf_def)
  have h2: "fst (authselect_check_symlinks_presence host_io_error v) = EACCES" for v
    by (simp add: host_defs authselect_check_symlinks_presence_def check_exists_def
        check_access_def)
  from h1 [of True] out_parameter_unchanged [of host_io_error True]
  have c1: "snd (authselect_check_conf host_io_error True) = True" by simp
  from h1 [of False] out_parameter_unchanged [of host_io_error False]
  have c2: "snd (authselect_check_conf host_io_error False) = False" by simp
  from h2 [of True] out_parameter_unchanged [of host_io_error True]
  have c3: "snd (authselect_check_symlinks_presence host_io_error True) = True" by simp
  from h2 [of False] out_parameter_unchanged [of host_io_error False]
  have c4: "snd (authselect_check_symlinks_presence host_io_error False) = False" by simp
  from h1 h2 c1 c2 c3 c4 show ?thesis by simp
qed

text \<open>
  C10. \<open>check_link\<close> asks for more than existence, type and target: the permission bits
  of the link have to be 0777. Whatever \<open>lstat\<close> finds with other mode bits is marked
  invalid, wherever it points; a link that is judged valid is a symbolic link with these
  bits; and a symbolic link with these bits that points to the expected destination is
  judged valid.
\<close>

theorem check_link_permission_bits:
  "(lstat w lp = Inr sb \<and> st_mode sb AND ALLPERMS \<noteq> ACCESSPERMS
      \<longrightarrow> check_link w lp d v = (EOK, False)) \<and>
   (lstat w lp = Inr sb \<and> check_link w lp d v = (EOK, True)
      \<longrightarrow> S_ISLNK (st_mode sb) \<and> st_mode sb AND ALLPERMS = ACCESSPERMS) \<and>
   (lstat w lp = Inr sb \<and> S_ISLNK (st_mode sb) \<and> st_mode sb AND ALLPERMS = ACCESSPERMS \<and>
    readlink_buf w lp (PATH_MAX + 1) = Inr d
      \<longrightarrow> check_link w lp d v = (EOK, True))"
proof -
  have a: "check_link w lp d v = (EOK, False)"
    if "lstat w lp = Inr sb" "st_mode sb AND ALLPERMS \<noteq> ACCESSPERMS"
    using that by (simp add: check_link_def check_internal_def check_mode_def check_type_def)
  have b: "S_ISLNK (st_mode sb) \<and> st_mode sb AND ALLPERMS = ACCESSPERMS"
    if "lstat w lp = Inr sb" "check_link w lp d v = (EOK, True)"
    using that
    by (auto simp: check_link_def check_internal_def check_mode_def check_type_def
        S_ISLNK_def Let_def split: sum.splits if_splits)
  have c: "check_link w lp d v = (EOK, True)"
    if "lstat w lp = Inr sb" "S_ISLNK (st_mode sb)" "st_mode sb AND ALLPERMS = ACCESSPERMS"
       "readlink_buf w lp (PATH_MAX + 1) = Inr d"
    using that
    by (simp add: check_link_def check_internal_def check_mode_def check_type_def
        S_ISLNK_def strncmp_length)
  from a b c show ?thesis by blast
qed

theorem check_link_permission_bits_witness:
  "lstat host_link_mode (name nsswitch_link)
     = Inr \<lparr> st_mode = 0xA1ED, st_uid = 0, st_gid = 0 \<rparr> \<and>
   (0xA1ED :: mode_t) AND ALLPERMS \<noteq> ACCESSPERMS \<and>
   readlink host_link_mode (name nsswitch_link) = Inr (dest nsswitch_link) \<and>
   check_link host_link_mode (name nsswitch_link) (dest nsswitch_link) True = (EOK, False) \<and>
   check_link host_link_mode (name nsswitch_link) ''/etc/passwd'' True = (EOK, False) \<and>
   lstat host_link_ok (name nsswitch_link)
     = Inr \<lparr> st_mode = 0xA1FF, st_uid = 0, st_gid = 0 \<rparr> \<and>
   S_ISLNK 0xA1FF \<and> (0xA1FF :: mode_t) AND ALLPERMS = ACCESSPERMS \<and>
   readlink_buf host_link_ok (name nsswitch_link) (PATH_MAX + 1) = Inr (dest nsswitch_link) \<and>
   check_link host_link_ok (name nsswitch_link) (dest nsswitch_link) False = (EOK, True)"
proof -
  note T = check_link_permission_bits
  have h1: "lstat host_link_mode (name nsswitch_link)
              = Inr \<lparr> st_mode = 0xA1ED, st_uid = 0, st_gid = 0 \<rparr>"
    and h2: "readlink host_link_mode (name nsswitch_link) = Inr (dest nsswitch_link)"
    by (simp_all add: host_defs)
  have h3: "(0xA1ED :: mode_t) AND ALLPERMS \<noteq> ACCESSPERMS"
    by simp
  from h1 h3 T [where w = host_link_mode and lp = "name nsswitch_link"
      and d = "dest nsswitch_link" and v = True
      and sb = "\<lparr> st_mode = 0xA1ED, st_uid = 0, st_gid = 0 \<rparr>"]
  have c1: "check_link host_link_mode (name nsswitch_link) (dest nsswitch_link) True
              = (EOK, False)"
    by simp
  from h1 h3 T [where w = host_link_mode and lp = "name nsswitch_link"
      and d = "''/etc/passwd''" and v = True
      and sb = "\<lparr> st_mode = 0xA1ED, st_uid = 0, st_gid = 0 \<rparr>"]
  have c2: "check_link host_link_mode (name nsswitch_link) ''/etc/passwd'' True
              = (EOK, False)"
    by simp
  have h5: "lstat host_link_ok (name nsswitch_link)
              = Inr \<lparr> st_mode = 0xA1FF, st_uid = 0, st_gid = 0 \<rparr>"
    and h6: "readlink_buf host_link_ok (name nsswitch_link) (PATH_MAX + 1)
              = Inr (dest nsswitch_link)"
    by (simp_all add: host_defs readlink_buf_def)
  have h7: "S_ISLNK 0xA1FF" and h8: "(0xA1FF :: mode_t) AND ALLPERMS = ACCESSPERMS"
    by (simp_all add: S_ISLNK_def)
  from h5 h6 h7 h8 T [where w = host_link_ok and lp = "name nsswitch_link"
      and d = "dest nsswitch_link" and v = False
      and sb = "\<lparr> st_mode = 0xA1FF, st_uid = 0, st_gid = 0 \<rparr>"]
  have c3: "check_link host_link_ok (name nsswitch_link) (dest nsswitch_link) False
              = (EOK, True)"
    by simp
  from h5 c3 T [where w = host_link_ok and lp = "name nsswitch_link"
      and d = "dest nsswitch_link" and v = False
      and sb = "\<lparr> st_mode = 0xA1FF, st_uid = 0, st_gid = 0 \<rparr>"]
  have c4: "S_ISLNK 0xA1FF \<and> (0xA1FF :: mode_t) AND ALLPERMS = ACCESSPERMS"
    by simp
  from h1 h2 h3 c1 c2 h5 h6 c3 c4 show ?thesis by blast
qed


end
